theory Spec2Isabelle
  imports Complex_Main
begin

section \<open>Heart-hands gesture recognition: feature pipeline and per-frame state\<close>

text \<open>
  The development embeds the feature engineering of \<open>collect_data.py\<close> and
  \<open>detect_realtime.py\<close>, the auto-capture logic of the collection loop and the
  smoothing buffer of the inference loop.

  Landmark coordinates and feature vectors are modelled as the reals: every statement
  about normalisation and feature extraction below is a statement about exact
  arithmetic, which the binary64 results follow up to rounding.  The smoothed
  probability is compared with a threshold, where rounding decides, so the mean of the
  prediction buffer is modelled in binary64: a float is the real number it denotes,
  and every addition and the division round to the nearest float, ties to even.
  A landmark object is the pair of its fields \<open>(lm.x, lm.y)\<close>, the only ones the
  code reads.
\<close>

subsection \<open>Errors\<close>

datatype error = IndexError | ValueError

subsection \<open>Landmark normalisation (collect\_data.py)\<close>

type_synonym landmark = "real \<times> real"

text \<open>Row arithmetic of the \<open>(n, 2)\<close> array: broadcasting subtracts the wrist row
  from every row and divides every entry by the scalar.\<close>

definition row_sub :: "landmark \<Rightarrow> landmark \<Rightarrow> landmark" where
  "row_sub p q = (fst p - fst q, snd p - snd q)"

definition row_div :: "landmark \<Rightarrow> real \<Rightarrow> landmark" where
  "row_div p s = (fst p / s, snd p / s)"

text \<open>\<open>np.linalg.norm\<close> of a row of two entries.\<close>

definition linalg_norm :: "landmark \<Rightarrow> real" where
  "linalg_norm v = sqrt ((fst v)\<^sup>2 + (snd v)\<^sup>2)"

text \<open>\<open>ndarray.flatten\<close> of an \<open>(n, 2)\<close> array, row by row.\<close>

definition flatten :: "landmark list \<Rightarrow> real list" where
  "flatten rows = concat (map (\<lambda>p. [fst p, snd p]) rows)"

text \<open>The distance from the wrist (landmark 0) to the middle-finger MCP (landmark 9),
  before the guard.\<close>

definition anchor_distance :: "landmark list \<Rightarrow> real" where
  "anchor_distance landmarks = linalg_norm (row_sub (landmarks ! 9) (landmarks ! 0))"

text \<open>The guard \<open>if scale < 1e-6: scale = 1e-6\<close>.\<close>

definition clamp_scale :: "real \<Rightarrow> real" where
  "clamp_scale scale = (if scale < 1 / 1000000 then 1 / 1000000 else scale)"

text \<open>\<open>normalize_landmarks\<close>.  Indexing row 0 or row 9 of an array with fewer than
  ten rows raises \<open>IndexError\<close>.\<close>

definition normalize_landmarks :: "landmark list \<Rightarrow> error + real list" where
  "normalize_landmarks hand_landmarks =
     (let landmarks = hand_landmarks in
      if length landmarks \<le> 9 then Inl IndexError
      else
        let wrist = landmarks ! 0;
            scale = clamp_scale (anchor_distance landmarks);
            normalized = map (\<lambda>p. row_div (row_sub p wrist) scale) landmarks
        in Inr (flatten normalized))"

subsection \<open>Feature extraction (collect\_data.py)\<close>

text \<open>A handedness entry of the detector is a list of categories; the code reads the
  name of the first.\<close>

datatype category = Category (category_name: string)

text \<open>The loop that fills \<open>hand_data\<close>: \<open>handedness[0]\<close> raises on an empty list,
  and a failing normalisation propagates.\<close>

fun collect_hand_data ::
  "(landmark list \<times> category list) list \<Rightarrow> error + (string \<times> real list) list" where
  "collect_hand_data [] = Inr []"
| "collect_hand_data ((hand_landmarks, handedness) # rest) =
     (case handedness of
        [] \<Rightarrow> Inl IndexError
      | c # _ \<Rightarrow>
          (case normalize_landmarks hand_landmarks of
             Inl e \<Rightarrow> Inl e
           | Inr normalized \<Rightarrow>
               (case collect_hand_data rest of
                  Inl e \<Rightarrow> Inl e
                | Inr hand_data \<Rightarrow> Inr ((category_name c, normalized) # hand_data))))"

text \<open>The sort key \<open>lambda x: 0 if x[0] == "Left" else 1\<close>.\<close>

definition hand_key :: "string \<times> real list \<Rightarrow> nat" where
  "hand_key x = (if fst x = ''Left'' then 0 else 1)"

text \<open>\<open>extract_features\<close>.  The result \<open>Inr None\<close> is Python's \<open>None\<close>;
  \<open>list.sort\<close> is stable, as \<^const>\<open>sort_key\<close> is; \<open>np.concatenate\<close> of an empty
  list raises \<open>ValueError\<close>.\<close>

definition extract_features ::
  "landmark list list \<Rightarrow> category list list \<Rightarrow> error + real list option" where
  "extract_features hand_landmarks_list handedness_list =
     (if hand_landmarks_list = [] \<or> length hand_landmarks_list < 2 then Inr None
      else
        case collect_hand_data (zip hand_landmarks_list handedness_list) of
          Inl e \<Rightarrow> Inl e
        | Inr hand_data \<Rightarrow>
            (let sorted_data = sort_key hand_key hand_data in
             if sorted_data = [] then Inl ValueError
             else Inr (Some (concat (map snd sorted_data)))))"

subsection \<open>The same two functions in detect\_realtime.py\<close>

definition rt_normalize_landmarks :: "landmark list \<Rightarrow> error + real list" where
  "rt_normalize_landmarks hand_landmarks =
     (let landmarks = hand_landmarks in
      if length landmarks \<le> 9 then Inl IndexError
      else
        let wrist = landmarks ! 0;
            middle_mcp = landmarks ! 9;
            scale = linalg_norm (row_sub middle_mcp wrist);
            scale = (if scale < 1 / 1000000 then 1 / 1000000 else scale);
            normalized = map (\<lambda>p. row_div (row_sub p wrist) scale) landmarks
        in Inr (flatten normalized))"

fun rt_collect_hand_data ::
  "(landmark list \<times> category list) list \<Rightarrow> error + (string \<times> real list) list" where
  "rt_collect_hand_data [] = Inr []"
| "rt_collect_hand_data ((hand_landmarks, handedness) # rest) =
     (case handedness of
        [] \<Rightarrow> Inl IndexError
      | c # _ \<Rightarrow>
          (case rt_normalize_landmarks hand_landmarks of
             Inl e \<Rightarrow> Inl e
           | Inr normalized \<Rightarrow>
               (case rt_collect_hand_data rest of
                  Inl e \<Rightarrow> Inl e
                | Inr hand_data \<Rightarrow> Inr ((category_name c, normalized) # hand_data))))"

definition rt_extract_features ::
  "landmark list list \<Rightarrow> category list list \<Rightarrow> error + real list option" where
  "rt_extract_features hand_landmarks_list handedness_list =
     (if hand_landmarks_list = [] \<or> length hand_landmarks_list < 2 then Inr None
      else
        case rt_collect_hand_data (zip hand_landmarks_list handedness_list) of
          Inl e \<Rightarrow> Inl e
        | Inr hand_data \<Rightarrow>
            (let sorted_data =
               sort_key (\<lambda>x. if fst x = ''Left'' then 0 else (1::nat)) hand_data in
             if sorted_data = [] then Inl ValueError
             else Inr (Some (concat (map snd sorted_data)))))"

text \<open>An entry of \<open>hand_data\<close> belongs to a detected hand: it carries the name of
  the hand's first category and the hand's normalised landmarks.\<close>

definition labelled :: "landmark list \<times> category list \<Rightarrow> string \<times> real list \<Rightarrow> bool" where
  "labelled input entry \<longleftrightarrow>
     fst entry = category_name (hd (snd input)) \<and> normalize_landmarks (fst input) = Inr (snd entry)"

subsection \<open>The collection loop (collect\_data.py, main)\<close>

text \<open>
  The variables of \<open>main\<close> that survive a frame, and the rows \<open>save_sample\<close> has
  appended to the CSV file.  The status line is display only and is left out.
\<close>

record collect_state =
  heart_count :: nat
  not_heart_count :: nat
  two_hands_start_time :: "real option"
  pending_sample :: bool
  captured_features :: "real list option"
  csv_rows :: "(real list \<times> nat) list"

text \<open>
  What one iteration reads from outside: the result of \<open>extract_features\<close> on the
  frame's detection, the two readings of \<open>time.time()\<close> (the one stored as the start
  of the hold and the one the elapsed time is taken from), and the byte
  \<open>cv2.waitKey(1) & 0xFF\<close>.
\<close>

record collect_frame =
  frame_features :: "real list option"
  clock_start :: real
  clock_elapsed :: real
  frame_key :: char

definition initial_state :: collect_state where
  "initial_state =
     \<lparr>heart_count = 0, not_heart_count = 0, two_hands_start_time = None,
      pending_sample = False, captured_features = None, csv_rows = []\<rparr>"

text \<open>The auto-capture block.  \<open>features.copy()\<close> is the value of the frame's vector:
  each frame's vector is a fresh array that nothing writes to afterwards.\<close>

definition auto_capture :: "collect_frame \<Rightarrow> collect_state \<Rightarrow> collect_state" where
  "auto_capture fr st =
     (case frame_features fr of
        Some feats \<Rightarrow>
          if \<not> pending_sample st then
            let start = (case two_hands_start_time st of
                           None \<Rightarrow> clock_start fr
                         | Some t \<Rightarrow> t);
                elapsed = clock_elapsed fr - start
            in if 3 \<le> elapsed \<and> \<not> pending_sample st
               then st\<lparr>two_hands_start_time := Some start,
                       captured_features := Some feats,
                       pending_sample := True\<rparr>
               else st\<lparr>two_hands_start_time := Some start\<rparr>
          else st
      | None \<Rightarrow>
          if \<not> pending_sample st then st\<lparr>two_hands_start_time := None\<rparr> else st)"

definition save_sample :: "real list \<Rightarrow> nat \<Rightarrow> collect_state \<Rightarrow> collect_state" where
  "save_sample feats label st = st\<lparr>csv_rows := csv_rows st @ [(feats, label)]\<rparr>"

definition is_quit :: "collect_frame \<Rightarrow> bool" where
  "is_quit fr \<longleftrightarrow> frame_key fr = CHR ''q'' \<or> frame_key fr = CHR ''Q''"

text \<open>The keys that label the pending auto-captured sample.\<close>

definition is_confirm :: "collect_frame \<Rightarrow> bool" where
  "is_confirm fr \<longleftrightarrow>
     frame_key fr = CHR ''a'' \<or> frame_key fr = CHR ''A'' \<or>
     frame_key fr = CHR ''d'' \<or> frame_key fr = CHR ''D''"

text \<open>The key dispatch; the \<open>break\<close> on \<open>q\<close> is taken by the loop below.\<close>

definition handle_key :: "collect_frame \<Rightarrow> collect_state \<Rightarrow> collect_state" where
  "handle_key fr st =
     (let k = frame_key fr in
      if k = CHR ''q'' \<or> k = CHR ''Q'' then st
      else if k = CHR ''h'' \<or> k = CHR ''H'' then
        (case frame_features fr of
           Some feats \<Rightarrow> (save_sample feats 1 st)\<lparr>heart_count := heart_count st + 1\<rparr>
         | None \<Rightarrow> st)
      else if k = CHR ''n'' \<or> k = CHR ''N'' then
        (case frame_features fr of
           Some feats \<Rightarrow> (save_sample feats 0 st)\<lparr>not_heart_count := not_heart_count st + 1\<rparr>
         | None \<Rightarrow> st)
      else if k = CHR ''a'' \<or> k = CHR ''A'' then
        (case captured_features st of
           Some captured \<Rightarrow>
             if pending_sample st then
               (save_sample captured 1 st)
                 \<lparr>heart_count := heart_count st + 1, pending_sample := False,
                  captured_features := None, two_hands_start_time := None\<rparr>
             else st
         | None \<Rightarrow> st)
      else if k = CHR ''d'' \<or> k = CHR ''D'' then
        (case captured_features st of
           Some captured \<Rightarrow>
             if pending_sample st then
               (save_sample captured 0 st)
                 \<lparr>not_heart_count := not_heart_count st + 1, pending_sample := False,
                  captured_features := None, two_hands_start_time := None\<rparr>
             else st
         | None \<Rightarrow> st)
      else st)"

text \<open>The \<open>while True\<close> loop over the frames the camera delivers; it ends when the
  frames end (a failed read) or at the quit key.\<close>

fun run_collect :: "collect_state \<Rightarrow> collect_frame list \<Rightarrow> collect_state" where
  "run_collect st [] = st"
| "run_collect st (fr # frs) =
     (let st' = auto_capture fr st in
      if is_quit fr then st' else run_collect (handle_key fr st') frs)"

text \<open>The capture transitions of a run, in order: a frame in which \<open>pending_sample\<close>
  goes from false to true, with the snapshot it stores.\<close>

fun capture_transitions :: "collect_state \<Rightarrow> collect_frame list \<Rightarrow> real list option list" where
  "capture_transitions st [] = []"
| "capture_transitions st (fr # frs) =
     (let st' = auto_capture fr st in
      (if \<not> pending_sample st \<and> pending_sample st' then [captured_features st'] else []) @
      (if is_quit fr then [] else capture_transitions (handle_key fr st') frs))"

text \<open>The first frame of a run at which the hold, timed from \<open>t0\<close>, has lasted three
  seconds.\<close>

definition first_held :: "real \<Rightarrow> collect_frame list \<Rightarrow> collect_frame" where
  "first_held t0 frs = hd (dropWhile (\<lambda>fr. clock_elapsed fr - t0 < 3) frs)"

subsection \<open>The inference loop (detect\_realtime.py, main)\<close>

definition SMOOTHING_WINDOW :: nat where
  "SMOOTHING_WINDOW = 10"

text \<open>
  Binary64 arithmetic on finite values.  \<open>round_half_even\<close> rounds a real to the
  nearest integer, ties to the even one.  \<open>ulp64 x\<close> is the spacing of the floats
  around \<open>x\<close>: \<open>2\<^sup>e\<^sup>-\<^sup>5\<^sup>2\<close> for \<open>2\<^sup>e \<le> |x| < 2\<^sup>e\<^sup>+\<^sup>1\<close>, and \<open>2\<^sup>-\<^sup>1\<^sup>0\<^sup>7\<^sup>4\<close> below the
  smallest normal number; the search starts at the subnormal spacing and doubles it at
  most 2045 times, up to the spacing \<open>2\<^sup>9\<^sup>7\<^sup>1\<close> of the largest floats.  \<open>round64\<close> is
  rounding to the nearest float.  Results of magnitude \<open>2\<^sup>1\<^sup>0\<^sup>2\<^sup>4\<close> and beyond, which are
  infinite in binary64, and NaN are outside the model: the values rounded below are
  sums and means of at most ten probabilities.
\<close>

definition round_half_even :: "real \<Rightarrow> int" where
  "round_half_even x =
     (let n = \<lfloor>x\<rfloor>; r = x - of_int n in
      if r < 1 / 2 then n else if 1 / 2 < r then n + 1 else if even n then n else n + 1)"

fun ulp_index :: "nat \<Rightarrow> nat \<Rightarrow> real \<Rightarrow> nat" where
  "ulp_index 0 k x = k"
| "ulp_index (Suc fuel) k x =
     (if x * 2 ^ 1074 < 2 ^ (k + 53) then k else ulp_index fuel (Suc k) x)"

definition ulp64 :: "real \<Rightarrow> real" where
  "ulp64 x = 2 ^ ulp_index 2045 0 \<bar>x\<bar> / 2 ^ 1074"

definition round64 :: "real \<Rightarrow> real" where
  "round64 x = of_int (round_half_even (x / ulp64 x)) * ulp64 x"

definition fl_add :: "real \<Rightarrow> real \<Rightarrow> real" where
  "fl_add x y = round64 (x + y)"

definition fl_div :: "real \<Rightarrow> real \<Rightarrow> real" where
  "fl_div x y = round64 (x / y)"

text \<open>The literal \<open>0.80\<close>.\<close>

definition HEART_THRESHOLD :: real where
  "HEART_THRESHOLD = round64 (80 / 100)"

text \<open>\<open>deque(maxlen=m).append\<close>: the new item goes to the right end, and an item of a
  deque grown beyond \<open>m\<close> is dropped from the left end.\<close>

definition deque_append :: "nat \<Rightarrow> 'a list \<Rightarrow> 'a \<Rightarrow> 'a list" where
  "deque_append m d x = (let d' = d @ [x] in if m < length d' then tl d' else d')"

text \<open>
  \<open>np.mean\<close> of a one-dimensional float64 array is \<open>np.add.reduce\<close> divided by the
  number of items.  The reduction adds NumPy's pairwise sum of the items to the
  identity \<open>0\<close>, which is exact.  The pairwise sum adds fewer than eight items one
  after the other; up to 128 items go into eight accumulators, eight items at a time,
  the accumulators are added as a balanced tree and the items left over are added one
  after the other; longer arrays are split in two at a multiple of eight.
\<close>

fun add_blocks :: "real list \<Rightarrow> real list \<Rightarrow> real list" where
  "add_blocks r a =
     (if length a < 8 then r
      else add_blocks (map2 fl_add r (take 8 a)) (drop 8 a))"

function pairwise_sum :: "real list \<Rightarrow> real" where
  "pairwise_sum a =
     (if length a < 8 then foldl fl_add 0 a
      else if length a \<le> 128 then
        (let n = length a;
             r = add_blocks (take 8 a) (drop 8 (take (n - n mod 8) a));
             res = fl_add (fl_add (fl_add (r ! 0) (r ! 1)) (fl_add (r ! 2) (r ! 3)))
                          (fl_add (fl_add (r ! 4) (r ! 5)) (fl_add (r ! 6) (r ! 7)))
         in foldl fl_add res (drop (n - n mod 8) a))
      else
        (let n2 = length a div 2 - (length a div 2) mod 8
         in fl_add (pairwise_sum (take n2 a)) (pairwise_sum (drop n2 a))))"
  by pat_completeness auto
termination
  by (relation "measure length") auto

declare pairwise_sum.simps [simp del]

text \<open>The mean of an empty array is NaN in NumPy; the loop takes the mean only after
  an append, of a buffer that is not empty.\<close>

definition np_mean :: "real list \<Rightarrow> real" where
  "np_mean xs = fl_div (pairwise_sum xs) (real (length xs))"

text \<open>What a frame shows: the banner and, with two hands, the smoothed probability.\<close>

record frame_result =
  display_text :: string
  avg_probability :: "real option"

text \<open>
  One iteration on the result of \<open>extract_features\<close>.  The parameter \<open>predict\<close> stands
  for the fitted scaler and classifier,
  \<open>model.predict_proba(scaler.transform([features]))[0][1]\<close>.
\<close>

definition detect_step ::
  "(real list \<Rightarrow> real) \<Rightarrow> real list \<Rightarrow> real list option \<Rightarrow> real list \<times> frame_result" where
  "detect_step predict prediction_buffer feats_opt =
     (case feats_opt of
        Some feats \<Rightarrow>
          let probability = predict feats;
              buffer = deque_append SMOOTHING_WINDOW prediction_buffer probability;
              avg = np_mean buffer;
              is_heart = (HEART_THRESHOLD \<le> avg)
          in (buffer,
              \<lparr>display_text = (if is_heart then ''HEART <3'' else ''NO HEART''),
               avg_probability = Some avg\<rparr>)
      | None \<Rightarrow> ([], \<lparr>display_text = ''NO HEART'', avg_probability = None\<rparr>))"

text \<open>The buffer after a run of frames, and what the frames showed.\<close>

fun run_detect :: "(real list \<Rightarrow> real) \<Rightarrow> real list \<Rightarrow> real list option list \<Rightarrow> real list" where
  "run_detect predict buf [] = buf"
| "run_detect predict buf (f # fs) = run_detect predict (fst (detect_step predict buf f)) fs"

fun detect_outputs ::
  "(real list \<Rightarrow> real) \<Rightarrow> real list \<Rightarrow> real list option list \<Rightarrow> frame_result list" where
  "detect_outputs predict buf [] = []"
| "detect_outputs predict buf (f # fs) =
     snd (detect_step predict buf f) # detect_outputs predict (fst (detect_step predict buf f)) fs"

subsection \<open>Sample hands\<close>

text \<open>A hand whose 21 landmarks are all the point \<open>p\<close>, and an upright hand with the
  wrist at the origin and every other landmark at \<open>(0, 1)\<close>.\<close>

definition point_hand :: "landmark \<Rightarrow> landmark list" where
  "point_hand p = replicate 21 p"

definition unit_hand :: "landmark list" where
  "unit_hand = (0, 0) # replicate 20 (0, 1)"

text \<open>The normalised \<open>unit_hand\<close>.\<close>

definition unit_normalized :: "real list" where
  "unit_normalized = 0 # 0 # concat (replicate 20 [0, 1])"

text \<open>The image of a hand under the map \<open>p \<mapsto> s * p + t\<close>.\<close>

definition transform_hand :: "real \<Rightarrow> landmark \<Rightarrow> landmark list \<Rightarrow> landmark list" where
  "transform_hand s t hand = map (\<lambda>p. (s * fst p + fst t, s * snd p + snd t)) hand"

text \<open>Landmark coordinates are fractions of the image width and height: between 0 and
  1 inside the image, somewhat outside that for a hand at the edge.  The frame allows
  one image width and height on either side.\<close>

definition in_frame :: "landmark \<Rightarrow> bool" where
  "in_frame p \<longleftrightarrow> - 1 \<le> fst p \<and> fst p \<le> 2 \<and> - 1 \<le> snd p \<and> snd p \<le> 2"

subsection \<open>Sample frames and buffers\<close>

text \<open>Frames of the collection loop at whole seconds with no key pressed
  (\<open>waitKey\<close> returns \<open>-1\<close>, masked to \<open>0xFF\<close>), and two prediction buffers.\<close>

definition no_key :: char where
  "no_key = CHR 0xFF"

definition sample_frame :: "real \<Rightarrow> real list option \<Rightarrow> collect_frame" where
  "sample_frame t feats =
     \<lparr>frame_features = feats, clock_start = t, clock_elapsed = t, frame_key = no_key\<rparr>"

definition sample_short :: "collect_frame list" where
  "sample_short = [sample_frame 0 (Some [1]), sample_frame 1 (Some [2]), sample_frame 2 (Some [3])]"

definition sample_gap :: collect_frame where
  "sample_gap = sample_frame (5 / 2) None"

definition sample_held :: "collect_frame list" where
  "sample_held =
     [sample_frame 0 (Some [1]), sample_frame 1 (Some [2]), sample_frame 2 (Some [3]),
      sample_frame 3 (Some [4]), sample_frame 4 (Some [5])]"

definition sample_later :: "collect_frame list" where
  "sample_later = [sample_frame 5 (Some [6]), sample_frame 6 None]"

definition sample_window :: "real list" where
  "sample_window = [0, 1 / 10, 2 / 10, 3 / 10, 4 / 10, 5 / 10, 6 / 10, 7 / 10, 8 / 10, 9 / 10]"


section \<open>Properties of the normaliser\<close>

lemma length_flatten: "length (flatten rows) = 2 * length rows"
  by (induction rows) (simp_all add: flatten_def)

lemma clamp_scale_pos: "0 < clamp_scale s"
  by (simp add: clamp_scale_def)

lemma clamp_scale_ge: "1 / 1000000 \<le> clamp_scale s"
  by (simp add: clamp_scale_def)

lemma normalize_landmarks_Inr:
  assumes "9 < length hand"
  shows "normalize_landmarks hand =
    Inr (flatten (map (\<lambda>p. row_div (row_sub p (hand ! 0)) (clamp_scale (anchor_distance hand))) hand))"
  using assms by (simp add: normalize_landmarks_def Let_def)

lemma length_normalize:
  assumes "normalize_landmarks hand = Inr v"
  shows "length v = 2 * length hand"
  using assms
  by (auto simp: normalize_landmarks_def Let_def length_flatten split: if_splits)

lemma flatten_Cons: "flatten (p # rows) = fst p # snd p # flatten rows"
  by (simp add: flatten_def)

lemma row_self: "row_div (row_sub p p) s = (0, 0)"
  by (simp add: row_div_def row_sub_def)

lemma flatten_replicate: "flatten (replicate n (a, b)) = concat (replicate n [a, b])"
  by (induction n) (simp_all add: flatten_def)

lemma normalize_point_hand: "normalize_landmarks (point_hand p) = Inr (replicate 42 0)"
proof -
  have "normalize_landmarks (point_hand p) = Inr (flatten (replicate 21 (0, 0)))"
    by (simp add: normalize_landmarks_def point_hand_def Let_def row_self map_replicate_const)
  also have "flatten (replicate 21 (0::real, 0::real)) = replicate 42 0"
    by (simp add: flatten_def eval_nat_numeral)
  finally show ?thesis .
qed

lemma anchor_point_hand: "anchor_distance (point_hand p) = 0"
  by (simp add: anchor_distance_def point_hand_def linalg_norm_def row_sub_def)

lemma anchor_unit: "anchor_distance unit_hand = 1"
  by (simp add: anchor_distance_def unit_hand_def linalg_norm_def row_sub_def eval_nat_numeral)


lemma norm_unit: "normalize_landmarks unit_hand = Inr unit_normalized"
proof -
  have "clamp_scale (anchor_distance unit_hand) = 1"
    by (simp add: anchor_unit clamp_scale_def)
  moreover have "9 < length unit_hand" by (simp add: unit_hand_def)
  ultimately have "normalize_landmarks unit_hand =
      Inr (flatten (map (\<lambda>p. row_div (row_sub p (0, 0)) 1) unit_hand))"
    by (simp add: normalize_landmarks_Inr) (simp add: unit_hand_def)
  also have "(\<lambda>p::landmark. row_div (row_sub p (0, 0)) 1) = (\<lambda>p. p)"
    by (simp add: row_div_def row_sub_def)
  finally show ?thesis
    by (simp add: unit_hand_def flatten_Cons flatten_replicate unit_normalized_def)
qed

lemma transform_nth:
  assumes "i < length hand"
  shows "transform_hand s t hand ! i = (s * fst (hand ! i) + fst t, s * snd (hand ! i) + snd t)"
  using assms by (simp add: transform_hand_def)

lemma anchor_distance_transform:
  assumes "9 < length hand" "0 < s"
  shows "anchor_distance (transform_hand s t hand) = s * anchor_distance hand"
proof -
  let ?a = "fst (hand ! 9) - fst (hand ! 0)" and ?b = "snd (hand ! 9) - snd (hand ! 0)"
  have n0: "0 < length hand" and n9: "9 < length hand" using assms by auto
  have "anchor_distance (transform_hand s t hand) = sqrt ((s * ?a)\<^sup>2 + (s * ?b)\<^sup>2)"
    by (simp add: anchor_distance_def transform_nth [OF n0] transform_nth [OF n9]
        linalg_norm_def row_sub_def right_diff_distrib)
  also have "(s * ?a)\<^sup>2 + (s * ?b)\<^sup>2 = s\<^sup>2 * (?a\<^sup>2 + ?b\<^sup>2)"
    by (simp add: power_mult_distrib distrib_left)
  also have "sqrt (s\<^sup>2 * (?a\<^sup>2 + ?b\<^sup>2)) = s * sqrt (?a\<^sup>2 + ?b\<^sup>2)"
    using assms by (simp add: real_sqrt_mult)
  finally show ?thesis by (simp add: anchor_distance_def linalg_norm_def row_sub_def)
qed

lemma row_transform:
  assumes "s \<noteq> 0"
  shows "row_div (row_sub (s * fst p + fst t, s * snd p + snd t) (s * fst w + fst t, s * snd w + snd t)) (s * d)
       = row_div (row_sub p w) d"
  using assms by (simp add: row_div_def row_sub_def right_diff_distrib [symmetric])

lemma normalize_invariant_aux:
  assumes "0 < s"
    and "s = 1 \<or> (1 / 1000000 \<le> anchor_distance hand \<and> 1 / 1000000 \<le> s * anchor_distance hand)"
  shows "normalize_landmarks (transform_hand s t hand) = normalize_landmarks hand"
proof (cases "9 < length hand")
  case False
  then show ?thesis by (simp add: normalize_landmarks_def transform_hand_def)
next
  case True
  have d: "anchor_distance (transform_hand s t hand) = s * anchor_distance hand"
    using True assms(1) by (rule anchor_distance_transform)
  have c: "clamp_scale (s * anchor_distance hand) = s * clamp_scale (anchor_distance hand)"
    using assms(2) by (auto simp: clamp_scale_def)
  have len: "9 < length (transform_hand s t hand)"
    using True by (simp add: transform_hand_def)
  have w: "transform_hand s t hand ! 0 = (s * fst (hand ! 0) + fst t, s * snd (hand ! 0) + snd t)"
    by (rule transform_nth) (use True in auto)
  have "map (\<lambda>p. row_div (row_sub p (transform_hand s t hand ! 0))
            (clamp_scale (anchor_distance (transform_hand s t hand)))) (transform_hand s t hand)
      = map (\<lambda>p. row_div (row_sub p (hand ! 0)) (clamp_scale (anchor_distance hand))) hand"
    using assms(1) by (simp add: d c w) (simp add: transform_hand_def row_transform)
  then show ?thesis
    using True len by (simp add: normalize_landmarks_Inr)
qed

lemma norm_tiny:
  "normalize_landmarks (transform_hand (1 / 10000000) (0, 0) unit_hand)
     = Inr (0 # 0 # concat (replicate 20 [0, 1 / 10]))"
proof -
  let ?h = "transform_hand (1 / 10000000) (0, 0) unit_hand"
  have "anchor_distance ?h = 1 / 10000000 * anchor_distance unit_hand"
    by (rule anchor_distance_transform) (simp_all add: unit_hand_def)
  then have c: "clamp_scale (anchor_distance ?h) = 1 / 1000000"
    by (simp add: anchor_unit clamp_scale_def)
  have "9 < length ?h" by (simp add: unit_hand_def transform_hand_def)
  then have "normalize_landmarks ?h =
      Inr (flatten (map (\<lambda>p. row_div (row_sub p (?h ! 0)) (1 / 1000000)) ?h))"
    by (simp only: normalize_landmarks_Inr c)
  then show ?thesis
    by (simp add: unit_hand_def transform_hand_def flatten_Cons flatten_replicate
        row_div_def row_sub_def)
qed

lemma rt_normalize_eq: "rt_normalize_landmarks hand = normalize_landmarks hand"
  by (simp add: rt_normalize_landmarks_def normalize_landmarks_def anchor_distance_def
      clamp_scale_def Let_def)

lemma rt_collect_eq: "rt_collect_hand_data hs = collect_hand_data hs"
proof (induction hs)
  case Nil
  show ?case by simp
next
  case (Cons h hs)
  obtain hand_landmarks handedness where h: "h = (hand_landmarks, handedness)"
    by (cases h)
  show ?case
    by (simp add: h rt_normalize_eq Cons.IH split: list.split sum.split)
qed

lemma rt_extract_eq: "rt_extract_features hs cs = extract_features hs cs"
proof -
  have k: "(\<lambda>x. if fst x = ''Left'' then 0 else 1) = hand_key"
    by (rule ext) (simp add: hand_key_def)
  show ?thesis
    by (simp only: rt_extract_features_def extract_features_def rt_collect_eq k)
qed

section \<open>Properties of feature extraction\<close>

lemma insort_key_zero:
  assumes "f x = (0::nat)"
  shows "insort_key f x ys = x # ys"
  using assms by (cases ys) simp_all

lemma insort_key_append_less:
  assumes "\<forall>y\<in>set ls. f y < f x"
  shows "insort_key f x (ls @ rs) = ls @ insort_key f x rs"
  using assms by (induction ls) auto

lemma insort_key_all_ge:
  assumes "\<forall>y\<in>set rs. f x \<le> f y"
  shows "insort_key f x rs = x # rs"
  using assms by (cases rs) simp_all

lemma sort_key_hand_key:
  "sort_key hand_key xs =
     filter (\<lambda>x. fst x = ''Left'') xs @ filter (\<lambda>x. fst x \<noteq> ''Left'') xs"
proof (induction xs)
  case Nil
  show ?case by simp
next
  case (Cons x xs)
  let ?ls = "filter (\<lambda>x. fst x = ''Left'') xs" and ?rs = "filter (\<lambda>x. fst x \<noteq> ''Left'') xs"
  show ?case
  proof (cases "fst x = ''Left''")
    case True
    then have "hand_key x = 0" by (simp add: hand_key_def)
    then show ?thesis using True by (simp add: Cons.IH insort_key_zero)
  next
    case False
    have "insort_key hand_key x (?ls @ ?rs) = ?ls @ insort_key hand_key x ?rs"
      by (rule insort_key_append_less) (use False in \<open>auto simp: hand_key_def\<close>)
    also have "insort_key hand_key x ?rs = x # ?rs"
      by (rule insort_key_all_ge) (auto simp: hand_key_def)
    finally show ?thesis using False by (simp add: Cons.IH)
  qed
qed


lemma collect_hand_data_ok:
  assumes "\<forall>h\<in>set hs. 9 < length (fst h) \<and> snd h \<noteq> []"
  shows "\<exists>hand_data. collect_hand_data hs = Inr hand_data \<and> list_all2 labelled hs hand_data"
  using assms
proof (induction hs)
  case Nil
  show ?case by simp
next
  case (Cons h hs)
  obtain hand_landmarks handedness where h: "h = (hand_landmarks, handedness)" by (cases h)
  from Cons.prems h obtain c cs where c: "handedness = c # cs" by (cases handedness) auto
  from Cons.prems h have "9 < length hand_landmarks" by simp
  then obtain v where v: "normalize_landmarks hand_landmarks = Inr v"
    by (simp add: normalize_landmarks_Inr)
  from Cons obtain hand_data where
    hd: "collect_hand_data hs = Inr hand_data" "list_all2 labelled hs hand_data"
    by auto
  have "labelled h (category_name c, v)"
    by (simp add: labelled_def h c v)
  then show ?case
    using hd by (simp add: h c v)
qed

lemma length_concat_normalized:
  assumes "list_all2 labelled hs hand_data" "\<forall>h\<in>set hs. length (fst h) = 21"
  shows "length (concat (map snd hand_data)) = 42 * length hs"
  using assms
proof (induction rule: list_all2_induct)
  case Nil
  show ?case by simp
next
  case (Cons h hs e es)
  from Cons.hyps(1) have "length (snd e) = 2 * length (fst h)"
    by (simp add: labelled_def length_normalize)
  then show ?case using Cons by simp
qed

lemma length_concat_sort_key:
  "length (concat (map snd (sort_key hand_key xs))) = length (concat (map snd xs))"
  unfolding sort_key_hand_key by (induction xs) simp_all

lemma extract_features_short:
  assumes "length hand_landmarks_list < 2"
  shows "extract_features hand_landmarks_list handedness_list = Inr None"
  using assms by (simp add: extract_features_def)

lemma extract_features_ok:
  assumes "length handedness_list = length hand_landmarks_list"
    and "\<forall>h\<in>set hand_landmarks_list. length h = 21"
    and "\<forall>c\<in>set handedness_list. c \<noteq> []"
    and "2 \<le> length hand_landmarks_list"
  shows "\<exists>hand_data.
      collect_hand_data (zip hand_landmarks_list handedness_list) = Inr hand_data \<and>
      list_all2 labelled (zip hand_landmarks_list handedness_list) hand_data \<and>
      extract_features hand_landmarks_list handedness_list =
        Inr (Some (concat (map snd (filter (\<lambda>x. fst x = ''Left'') hand_data @
                                    filter (\<lambda>x. fst x \<noteq> ''Left'') hand_data)))) \<and>
      length (concat (map snd (filter (\<lambda>x. fst x = ''Left'') hand_data @
                                    filter (\<lambda>x. fst x \<noteq> ''Left'') hand_data)))
        = 42 * length hand_landmarks_list"
proof -
  let ?hs = "zip hand_landmarks_list handedness_list"
  have mem: "fst h \<in> set hand_landmarks_list \<and> snd h \<in> set handedness_list"
    if "h \<in> set ?hs" for h
    using that by (metis prod.collapse set_zip_leftD set_zip_rightD)
  have "\<forall>h\<in>set ?hs. 9 < length (fst h) \<and> snd h \<noteq> []"
    using assms(2,3) mem by fastforce
  then obtain hand_data where
    hd: "collect_hand_data ?hs = Inr hand_data" "list_all2 labelled ?hs hand_data"
    using collect_hand_data_ok by blast
  have "\<forall>h\<in>set ?hs. length (fst h) = 21"
    using assms(2) mem by blast
  with hd(2) have len: "length (concat (map snd hand_data)) = 42 * length ?hs"
    by (rule length_concat_normalized)
  have n: "length hand_data = length hand_landmarks_list"
    using hd(2) assms(1) by (simp add: list_all2_lengthD [symmetric])
  then have ne: "sort_key hand_key hand_data \<noteq> []"
    using assms(4) by (metis length_sort list.size(3) not_numeral_le_zero)
  have s: "length (concat (map snd (sort_key hand_key hand_data))) = 42 * length hand_landmarks_list"
    using len assms(1) by (simp add: length_concat_sort_key)
  have "extract_features hand_landmarks_list handedness_list =
        Inr (Some (concat (map snd (sort_key hand_key hand_data))))"
    using assms(4) ne by (auto simp: extract_features_def hd(1))
  then show ?thesis
    using hd s by (simp add: sort_key_hand_key)
qed

lemma extract_two:
  assumes "normalize_landmarks A = Inr a" "normalize_landmarks B = Inr b"
  shows "extract_features [A, B] [Category m # ca, Category n # cb] =
     Inr (Some (if m \<noteq> ''Left'' \<and> n = ''Left'' then b @ a else a @ b))"
  using assms by (simp add: extract_features_def hand_key_def)

lemma normalize_landmarks_Inl:
  assumes "normalize_landmarks A = Inl e"
  shows "e = IndexError"
  using assms by (simp add: normalize_landmarks_def Let_def split: if_splits)

lemma extract_two_err:
  assumes "normalize_landmarks A = Inl e \<or> normalize_landmarks B = Inl e"
  shows "extract_features [A, B] [Category m # ca, Category n # cb] = Inl IndexError"
  using assms
  by (auto simp add: extract_features_def dest: normalize_landmarks_Inl split: sum.splits)

lemma extract_features_swap:
  "extract_features [R, L] [Category ''Right'' # cr, Category ''Left'' # cl] =
   extract_features [L, R] [Category ''Left'' # cl, Category ''Right'' # cr]"
proof (cases "normalize_landmarks L")
  case (Inl e)
  then show ?thesis
    using extract_two_err [of R e L] extract_two_err [of L e R] by simp
next
  case l: (Inr l)
  show ?thesis
  proof (cases "normalize_landmarks R")
    case (Inl e)
    then show ?thesis
      using extract_two_err [of R e L] extract_two_err [of L e R] by simp
  next
    case (Inr r)
    then show ?thesis using l by (simp add: extract_two)
  qed
qed

section \<open>Claims about normalisation and feature extraction\<close>

text \<open>
  C3.  For every hand of 21 landmarks, normalisation succeeds and the first two values
  of its result, the wrist's normalised \<open>x\<close> and \<open>y\<close>, are \<open>0\<close> and \<open>0\<close>.
\<close>

theorem wrist_maps_to_origin:
  assumes "length hand = 21"
  shows "\<exists>v. normalize_landmarks hand = Inr v \<and> take 2 v = [0, 0]"
proof -
  from assms obtain p rest where h: "hand = p # rest" by (cases hand) auto
  have "9 < length hand" using assms by simp
  then show ?thesis
    by (simp add: normalize_landmarks_Inr) (simp add: h flatten_Cons row_self)
qed

theorem wrist_maps_to_origin_witness:
  "length unit_hand = 21 \<and>
   (\<exists>v. normalize_landmarks unit_hand = Inr v \<and> take 2 v = [0, 0])"
  using wrist_maps_to_origin [of unit_hand] by (simp add: unit_hand_def)

text \<open>
  C4 as stated fails: shrinking the upright unit hand by the factor \<open>10\<^sup>-\<^sup>7\<close> brings
  its anchor distance below the guard, the divisor becomes \<open>10\<^sup>-\<^sup>6\<close>, and every
  landmark but the wrist is normalised to \<open>(0, 1/10)\<close> instead of \<open>(0, 1)\<close>.
\<close>

theorem scale_invariance_counterexample:
  "length unit_hand = 21 \<and> (0::real) < 1 / 10000000 \<and>
   normalize_landmarks unit_hand = Inr (0 # 0 # concat (replicate 20 [0, 1])) \<and>
   normalize_landmarks (transform_hand (1 / 10000000) (0, 0) unit_hand) =
     Inr (0 # 0 # concat (replicate 20 [0, 1 / 10])) \<and>
   normalize_landmarks (transform_hand (1 / 10000000) (0, 0) unit_hand) \<noteq>
     normalize_landmarks unit_hand"
  by (simp add: norm_tiny norm_unit unit_normalized_def)
    (simp add: unit_hand_def eval_nat_numeral)

text \<open>
  C4, amended.  For every hand of 21 landmarks, every translation \<open>t\<close> and every
  factor \<open>s > 0\<close> such that the landmarks of the hand and of its image under
  \<open>p \<mapsto> s * p + t\<close> lie in the frame and, unless \<open>s = 1\<close>, the anchor distances of
  the hand and of the image are both at least \<open>10\<^sup>-\<^sup>6\<close>, so that the guard fires on
  neither, the image has the same normalisation of 42 values as the hand.  The
  equality is that of exact arithmetic; the binary64 results agree with it, and with
  each other, up to rounding.
\<close>

theorem scale_translation_invariance:
  assumes "length hand = 21" and "0 < s"
    and "\<forall>p\<in>set hand. in_frame p"
    and "\<forall>p\<in>set (transform_hand s t hand). in_frame p"
    and "s = 1 \<or> (1 / 1000000 \<le> anchor_distance hand \<and>
                   1 / 1000000 \<le> anchor_distance (transform_hand s t hand))"
  shows "\<exists>v. normalize_landmarks hand = Inr v \<and>
             normalize_landmarks (transform_hand s t hand) = Inr v \<and> length v = 42"
proof -
  have len: "9 < length hand" using assms(1) by simp
  have d: "anchor_distance (transform_hand s t hand) = s * anchor_distance hand"
    using len assms(2) by (rule anchor_distance_transform)
  have "s = 1 \<or> (1 / 1000000 \<le> anchor_distance hand \<and> 1 / 1000000 \<le> s * anchor_distance hand)"
    using assms(5) by (simp only: d)
  with assms(2) have eq: "normalize_landmarks (transform_hand s t hand) = normalize_landmarks hand"
    by (rule normalize_invariant_aux)
  obtain v where v: "normalize_landmarks hand = Inr v"
    using len by (simp add: normalize_landmarks_Inr)
  then have "length v = 42"
    using assms(1) by (simp add: length_normalize)
  with v eq show ?thesis by simp
qed

theorem scale_translation_invariance_witness:
  "length unit_hand = 21 \<and>
   anchor_distance unit_hand = 1 \<and>
   anchor_distance (transform_hand (1 / 2) (1 / 4, 1 / 4) unit_hand) = 1 / 2 \<and>
   normalize_landmarks (transform_hand (1 / 2) (1 / 4, 1 / 4) unit_hand) =
     normalize_landmarks unit_hand \<and>
   (\<exists>v. normalize_landmarks unit_hand = Inr v \<and> length v = 42)"
proof -
  let ?image = "transform_hand (1 / 2) (1 / 4, 1 / 4) unit_hand"
  have len: "length unit_hand = 21"
    by (simp add: unit_hand_def)
  have pos: "(0::real) < 1 / 2" by simp
  have f1: "\<forall>p\<in>set unit_hand. in_frame p"
    by (simp add: unit_hand_def in_frame_def)
  have f2: "\<forall>p\<in>set ?image. in_frame p"
    by (simp add: unit_hand_def transform_hand_def in_frame_def)
  have d2: "anchor_distance ?image = 1 / 2"
    using anchor_distance_transform [of unit_hand "1 / 2" "(1 / 4, 1 / 4)"] len
    by (simp add: anchor_unit)
  have g: "1 / 2 = (1::real) \<or> (1 / 1000000 \<le> anchor_distance unit_hand \<and>
                   1 / 1000000 \<le> anchor_distance ?image)"
    by (simp add: anchor_unit d2)
  from scale_translation_invariance [OF len pos f1 f2 g] len d2 anchor_unit
  show ?thesis by metis
qed

text \<open>
  C6.  Normalisation of a hand of 21 landmarks always returns 42 values and never
  divides by zero: the divisor is the clamped anchor distance, which is at least
  \<open>10\<^sup>-\<^sup>6\<close> and is exactly \<open>10\<^sup>-\<^sup>6\<close> when the anchor distance is below it.  A hand
  whose landmarks are all one point is normalised to 42 zeros.
\<close>

theorem normalize_total:
  "(length hand = 21 \<longrightarrow>
      (\<exists>v. normalize_landmarks hand = Inr v \<and> length v = 42 \<and>
        v = flatten (map (\<lambda>p. row_div (row_sub p (hand ! 0))
                                 (clamp_scale (anchor_distance hand))) hand))) \<and>
   0 < clamp_scale (anchor_distance hand) \<and>
   (anchor_distance hand < 1 / 1000000 \<longrightarrow>
      clamp_scale (anchor_distance hand) = 1 / 1000000) \<and>
   anchor_distance (point_hand p) = 0 \<and>
   normalize_landmarks (point_hand p) = Inr (replicate 42 0)"
proof -
  have "\<exists>v. normalize_landmarks hand = Inr v \<and> length v = 42 \<and>
        v = flatten (map (\<lambda>p. row_div (row_sub p (hand ! 0))
                                 (clamp_scale (anchor_distance hand))) hand)"
    if "length hand = 21"
    using that by (simp add: normalize_landmarks_Inr length_flatten)
  moreover have "clamp_scale (anchor_distance hand) = 1 / 1000000"
    if "anchor_distance hand < 1 / 1000000"
    using that by (simp add: clamp_scale_def)
  ultimately show ?thesis
    using clamp_scale_pos [of "anchor_distance hand"] anchor_point_hand [of p]
      normalize_point_hand [of p]
    by blast
qed

theorem normalize_total_witness:
  "length (point_hand (1 / 2, 1 / 3)) = 21 \<and>
   anchor_distance (point_hand (1 / 2, 1 / 3)) < 1 / 1000000 \<and>
   clamp_scale (anchor_distance (point_hand (1 / 2, 1 / 3))) = 1 / 1000000 \<and>
   (\<exists>v. normalize_landmarks (point_hand (1 / 2, 1 / 3)) = Inr v \<and> length v = 42) \<and>
   normalize_landmarks (point_hand (1 / 2, 1 / 3)) = Inr (replicate 42 0)"
proof -
  let ?h = "point_hand (1 / 2, 1 / 3)"
  note t = normalize_total [of ?h "(1 / 2, 1 / 3)"]
  have len: "length ?h = 21"
    by (simp add: point_hand_def)
  from t have "anchor_distance ?h = 0" by blast
  then have lt: "anchor_distance ?h < 1 / 1000000" by simp
  from t lt have c: "clamp_scale (anchor_distance ?h) = 1 / 1000000" by blast
  from t len have v: "\<exists>v. normalize_landmarks ?h = Inr v \<and> length v = 42" by blast
  from t have n: "normalize_landmarks ?h = Inr (replicate 42 0)" by blast
  from len lt c v n show ?thesis by blast
qed

text \<open>
  C10.  The normalisation and feature extraction of the inference script return, on
  every input, what those of the collection script return, errors included.
\<close>

theorem collection_inference_agree:
  "rt_normalize_landmarks hand = normalize_landmarks hand \<and>
   rt_extract_features hand_landmarks_list handedness_list =
     extract_features hand_landmarks_list handedness_list"
  by (simp add: rt_normalize_eq rt_extract_eq)

text \<open>
  C1 as stated fails: given three hands, \<open>extract_features\<close> concatenates all three
  normalised hands, here two all-zero left hands followed by the right unit hand: 126
  values, not 84, with the third hand after the sort in the result.
\<close>

theorem extract_features_three_hands_counterexample:
  "extract_features [unit_hand, point_hand (0, 0), point_hand (0, 0)]
     [[Category ''Right''], [Category ''Left''], [Category ''Left'']] =
     Inr (Some (replicate 84 0 @ unit_normalized)) \<and>
   length (replicate 84 0 @ unit_normalized) = 126"
proof -
  have "replicate 42 (0::real) @ replicate 42 0 = replicate 84 0"
    by (simp add: replicate_add [symmetric])
  then have "extract_features [unit_hand, point_hand (0, 0), point_hand (0, 0)]
     [[Category ''Right''], [Category ''Left''], [Category ''Left'']] =
     Inr (Some (replicate 84 0 @ unit_normalized))"
    by (simp add: extract_features_def norm_unit normalize_point_hand hand_key_def)
  moreover have "length unit_normalized = 42"
    by (simp add: unit_normalized_def length_concat sum_list_replicate)
  ultimately show ?thesis by simp
qed

text \<open>
  C1, amended.  On a detection with one handedness entry per hand, 21 landmarks per
  hand and a non-empty category list per hand, \<open>extract_features\<close> returns \<open>None\<close>
  for fewer than two hands; for \<open>n \<ge> 2\<close> hands it returns the normalised hands of
  all \<open>n\<close>, those named Left first and the others after, each group in detection
  order: \<open>42 * n\<close> values, which is 84 for exactly two hands.
\<close>

theorem extract_features_result:
  assumes "length handedness_list = length hand_landmarks_list"
    and "\<forall>h\<in>set hand_landmarks_list. length h = 21"
    and "\<forall>c\<in>set handedness_list. c \<noteq> []"
  shows "(length hand_landmarks_list < 2 \<longrightarrow>
            extract_features hand_landmarks_list handedness_list = Inr None) \<and>
         (2 \<le> length hand_landmarks_list \<longrightarrow>
           (\<exists>hand_data v.
              collect_hand_data (zip hand_landmarks_list handedness_list) = Inr hand_data \<and>
              list_all2 labelled (zip hand_landmarks_list handedness_list) hand_data \<and>
              v = concat (map snd (filter (\<lambda>x. fst x = ''Left'') hand_data @
                                   filter (\<lambda>x. fst x \<noteq> ''Left'') hand_data)) \<and>
              extract_features hand_landmarks_list handedness_list = Inr (Some v) \<and>
              length v = 42 * length hand_landmarks_list \<and>
              (length hand_landmarks_list = 2 \<longrightarrow> length v = 84)))"
proof (intro conjI impI)
  assume "length hand_landmarks_list < 2"
  then show "extract_features hand_landmarks_list handedness_list = Inr None"
    by (rule extract_features_short)
next
  assume "2 \<le> length hand_landmarks_list"
  with assms obtain hand_data where
    "collect_hand_data (zip hand_landmarks_list handedness_list) = Inr hand_data"
    "list_all2 labelled (zip hand_landmarks_list handedness_list) hand_data"
    "extract_features hand_landmarks_list handedness_list =
        Inr (Some (concat (map snd (filter (\<lambda>x. fst x = ''Left'') hand_data @
                                    filter (\<lambda>x. fst x \<noteq> ''Left'') hand_data))))"
    "length (concat (map snd (filter (\<lambda>x. fst x = ''Left'') hand_data @
                                    filter (\<lambda>x. fst x \<noteq> ''Left'') hand_data)))
        = 42 * length hand_landmarks_list"
    using extract_features_ok [of handedness_list hand_landmarks_list] by blast
  then show "\<exists>hand_data v.
              collect_hand_data (zip hand_landmarks_list handedness_list) = Inr hand_data \<and>
              list_all2 labelled (zip hand_landmarks_list handedness_list) hand_data \<and>
              v = concat (map snd (filter (\<lambda>x. fst x = ''Left'') hand_data @
                                   filter (\<lambda>x. fst x \<noteq> ''Left'') hand_data)) \<and>
              extract_features hand_landmarks_list handedness_list = Inr (Some v) \<and>
              length v = 42 * length hand_landmarks_list \<and>
              (length hand_landmarks_list = 2 \<longrightarrow> length v = 84)"
    by auto
qed

theorem extract_features_result_witness:
  "extract_features [unit_hand] [[Category ''Left'']] = Inr None \<and>
   (\<exists>v. extract_features [unit_hand, point_hand (0, 0)] [[Category ''Right''], [Category ''Left'']]
          = Inr (Some v) \<and> length v = 84)"
proof -
  have l1: "\<forall>h\<in>set [unit_hand]. length h = 21"
    by (simp add: unit_hand_def)
  have l2: "\<forall>h\<in>set [unit_hand, point_hand (0, 0)]. length h = 21"
    by (simp add: unit_hand_def point_hand_def)
  have one: "extract_features [unit_hand] [[Category ''Left'']] = Inr None"
    using extract_features_result [of "[[Category ''Left'']]" "[unit_hand]", OF _ l1]
    by simp
  have two: "\<exists>v. extract_features [unit_hand, point_hand (0, 0)]
                     [[Category ''Right''], [Category ''Left'']] = Inr (Some v) \<and> length v = 84"
    using extract_features_result
      [of "[[Category ''Right''], [Category ''Left'']]" "[unit_hand, point_hand (0, 0)]", OF _ l2]
    by auto
  from one two show ?thesis by blast
qed

text \<open>
  C5.  For a hand named Left and a hand named Right, \<open>extract_features\<close> returns the
  same result for the detection order Right, Left as for Left, Right: the normalised
  Left hand followed by the normalised Right hand when both normalise, and the same
  error otherwise.  Two hands with the same name keep their detection order.
\<close>

theorem canonical_hand_order:
  "extract_features [R, L] [Category ''Right'' # cr, Category ''Left'' # cl] =
     extract_features [L, R] [Category ''Left'' # cl, Category ''Right'' # cr] \<and>
   (normalize_landmarks L = Inr l \<and> normalize_landmarks R = Inr r \<longrightarrow>
      extract_features [R, L] [Category ''Right'' # cr, Category ''Left'' # cl] =
        Inr (Some (l @ r))) \<and>
   (normalize_landmarks A = Inr a \<and> normalize_landmarks B = Inr b \<longrightarrow>
      extract_features [A, B] [Category n # ca, Category n # cb] = Inr (Some (a @ b)))"
  by (simp add: extract_features_swap extract_two)

theorem canonical_hand_order_witness:
  "normalize_landmarks (point_hand (0, 0)) = Inr (replicate 42 0) \<and>
   normalize_landmarks unit_hand = Inr unit_normalized \<and>
   extract_features [unit_hand, point_hand (0, 0)] [[Category ''Right''], [Category ''Left'']] =
     extract_features [point_hand (0, 0), unit_hand] [[Category ''Left''], [Category ''Right'']] \<and>
   extract_features [unit_hand, point_hand (0, 0)] [[Category ''Right''], [Category ''Left'']] =
     Inr (Some (replicate 42 0 @ unit_normalized)) \<and>
   extract_features [unit_hand, point_hand (0, 0)] [[Category ''Right''], [Category ''Right'']] =
     Inr (Some (unit_normalized @ replicate 42 0))"
proof -
  note t = canonical_hand_order [of unit_hand "point_hand (0, 0)" "[]" "[]" "replicate 42 0"
      unit_normalized unit_hand unit_normalized "point_hand (0, 0)" "replicate 42 0" "''Right''" "[]" "[]"]
  have p: "normalize_landmarks (point_hand (0, 0)) = Inr (replicate 42 0)"
    by (rule normalize_point_hand)
  have u: "normalize_landmarks unit_hand = Inr unit_normalized"
    by (rule norm_unit)
  from t p u show ?thesis by blast
qed

section \<open>Properties of the collection loop and of the inference loop\<close>

lemma handle_key_not_pending:
  assumes "\<not> pending_sample st"
  shows "\<not> pending_sample (handle_key fr st)"
    and "two_hands_start_time (handle_key fr st) = two_hands_start_time st"
    and "captured_features (handle_key fr st) = captured_features st"
  using assms
  by (simp_all add: handle_key_def save_sample_def Let_def split: option.splits)

lemma handle_key_no_confirm:
  assumes "\<not> is_confirm fr"
  shows "pending_sample (handle_key fr st) = pending_sample st"
    and "two_hands_start_time (handle_key fr st) = two_hands_start_time st"
    and "captured_features (handle_key fr st) = captured_features st"
  using assms
  by (simp_all add: handle_key_def is_confirm_def save_sample_def Let_def split: option.splits)

lemma auto_capture_pending:
  assumes "pending_sample st"
  shows "auto_capture fr st = st"
  using assms by (simp add: auto_capture_def split: option.splits)

lemma auto_capture_hold:
  assumes "\<not> pending_sample st" "two_hands_start_time st = Some t0"
    "frame_features fr = Some feats" "clock_elapsed fr - t0 < 3"
  shows "auto_capture fr st = st"
  using assms by (simp add: auto_capture_def Let_def)

lemma auto_capture_fire:
  assumes "\<not> pending_sample st" "two_hands_start_time st = Some t0"
    "frame_features fr = Some feats" "3 \<le> clock_elapsed fr - t0"
  shows "auto_capture fr st = st\<lparr>captured_features := Some feats, pending_sample := True\<rparr>"
  using assms by (simp add: auto_capture_def Let_def)

lemma auto_capture_start:
  assumes "\<not> pending_sample st" "two_hands_start_time st = None" "frame_features fr = Some feats"
  shows "auto_capture fr st =
         auto_capture fr (st\<lparr>two_hands_start_time := Some (clock_start fr)\<rparr>)"
  using assms by (simp add: auto_capture_def Let_def)

lemma auto_capture_gap:
  assumes "\<not> pending_sample st" "frame_features fr = None"
  shows "auto_capture fr st = st\<lparr>two_hands_start_time := None\<rparr>"
  using assms by (simp add: auto_capture_def)

text \<open>While a sample is pending and no confirmation key arrives, nothing is captured
  and snapshot, flag and timer stay as they are.\<close>

lemma pending_run:
  assumes "pending_sample st" "\<forall>fr\<in>set frs. \<not> is_confirm fr"
  shows "capture_transitions st frs = [] \<and>
         pending_sample (run_collect st frs) \<and>
         captured_features (run_collect st frs) = captured_features st \<and>
         two_hands_start_time (run_collect st frs) = two_hands_start_time st"
  using assms
proof (induction frs arbitrary: st)
  case Nil
  then show ?case by simp
next
  case (Cons fr frs)
  have a: "auto_capture fr st = st" using Cons.prems(1) by (rule auto_capture_pending)
  have nc: "\<not> is_confirm fr" using Cons.prems(2) by simp
  have p: "pending_sample (handle_key fr st)"
    using Cons.prems(1) by (simp add: handle_key_no_confirm [OF nc])
  have ih: "capture_transitions (handle_key fr st) frs = [] \<and>
         pending_sample (run_collect (handle_key fr st) frs) \<and>
         captured_features (run_collect (handle_key fr st) frs) = captured_features (handle_key fr st) \<and>
         two_hands_start_time (run_collect (handle_key fr st) frs) = two_hands_start_time (handle_key fr st)"
    using Cons.IH [OF p] Cons.prems(2) by simp
  show ?case
    using ih Cons.prems(1) by (simp add: a handle_key_no_confirm [OF nc])
qed

text \<open>A hold timed from \<open>t0\<close> that stays below three seconds captures nothing.\<close>

lemma hold_run:
  assumes "\<not> pending_sample st" "two_hands_start_time st = Some t0"
    "\<forall>fr\<in>set frs. frame_features fr \<noteq> None \<and> clock_elapsed fr - t0 < 3"
  shows "capture_transitions st frs = [] \<and>
         \<not> pending_sample (run_collect st frs) \<and>
         captured_features (run_collect st frs) = captured_features st \<and>
         two_hands_start_time (run_collect st frs) = Some t0"
  using assms
proof (induction frs arbitrary: st)
  case Nil
  then show ?case by simp
next
  case (Cons fr frs)
  from Cons.prems(3) obtain feats where f: "frame_features fr = Some feats" by auto
  from Cons.prems(3) have lt: "clock_elapsed fr - t0 < 3" by simp
  have a: "auto_capture fr st = st"
    using Cons.prems(1,2) f lt by (rule auto_capture_hold)
  note hk = handle_key_not_pending [OF Cons.prems(1), of fr]
  have ih: "capture_transitions (handle_key fr st) frs = [] \<and>
         \<not> pending_sample (run_collect (handle_key fr st) frs) \<and>
         captured_features (run_collect (handle_key fr st) frs) = captured_features (handle_key fr st) \<and>
         two_hands_start_time (run_collect (handle_key fr st) frs) = Some t0"
    using Cons.IH [OF hk(1)] hk(2) Cons.prems(2,3) by simp
  show ?case
    using ih Cons.prems(1,2) by (simp add: a hk)
qed

text \<open>A hold timed from \<open>t0\<close> that reaches three seconds, with no quit and no
  confirmation key, captures once, at the first frame that reaches them.\<close>

lemma fire_run:
  assumes "\<not> pending_sample st" "two_hands_start_time st = Some t0"
    "\<forall>fr\<in>set frs. frame_features fr \<noteq> None \<and> \<not> is_quit fr \<and> \<not> is_confirm fr"
    "\<exists>fr\<in>set frs. 3 \<le> clock_elapsed fr - t0"
  shows "capture_transitions st frs = [frame_features (first_held t0 frs)] \<and>
         pending_sample (run_collect st frs) \<and>
         captured_features (run_collect st frs) = frame_features (first_held t0 frs)"
  using assms
proof (induction frs arbitrary: st)
  case Nil
  then show ?case by simp
next
  case (Cons fr frs)
  from Cons.prems(3) obtain feats where f: "frame_features fr = Some feats" by auto
  from Cons.prems(3) have nq: "\<not> is_quit fr" and nc: "\<not> is_confirm fr" by simp_all
  note hk = handle_key_no_confirm [OF nc]
  show ?case
  proof (cases "3 \<le> clock_elapsed fr - t0")
    case True
    let ?st' = "st\<lparr>captured_features := Some feats, pending_sample := True\<rparr>"
    have a: "auto_capture fr st = ?st'"
      using Cons.prems(1,2) f True by (rule auto_capture_fire)
    have fh: "first_held t0 (fr # frs) = fr"
      using True by (simp add: first_held_def)
    have p: "pending_sample (handle_key fr ?st')" by (simp add: hk)
    have rest: "\<forall>fr\<in>set frs. \<not> is_confirm fr" using Cons.prems(3) by simp
    note pr = pending_run [OF p rest]
    show ?thesis
      using pr Cons.prems(1) by (simp add: a nq fh hk f)
  next
    case False
    then have lt: "clock_elapsed fr - t0 < 3" by simp
    have a: "auto_capture fr st = st"
      using Cons.prems(1,2) f lt by (rule auto_capture_hold)
    have fh: "first_held t0 (fr # frs) = first_held t0 frs"
      using lt by (simp add: first_held_def)
    have ex: "\<exists>fr\<in>set frs. 3 \<le> clock_elapsed fr - t0"
      using Cons.prems(4) False by auto
    have np: "\<not> pending_sample (handle_key fr st)"
      using Cons.prems(1) by (simp add: hk)
    have st: "two_hands_start_time (handle_key fr st) = Some t0"
      using Cons.prems(2) by (simp add: hk)
    have rest: "\<forall>fr\<in>set frs. frame_features fr \<noteq> None \<and> \<not> is_quit fr \<and> \<not> is_confirm fr"
      using Cons.prems(3) by simp
    note ih = Cons.IH [OF np st rest ex]
    show ?thesis
      using ih Cons.prems(1) by (simp add: a nq fh)
  qed
qed

text \<open>Without a confirmation key a run captures at most once.\<close>

lemma at_most_one_capture:
  assumes "\<forall>fr\<in>set frs. \<not> is_confirm fr"
  shows "length (capture_transitions st frs) \<le> 1"
  using assms
proof (induction frs arbitrary: st)
  case Nil
  then show ?case by simp
next
  case (Cons fr frs)
  have nc: "\<not> is_confirm fr" and rest: "\<forall>fr\<in>set frs. \<not> is_confirm fr"
    using Cons.prems by simp_all
  note hk = handle_key_no_confirm [OF nc]
  let ?st' = "auto_capture fr st"
  show ?case
  proof (cases "\<not> pending_sample st \<and> pending_sample ?st'")
    case True
    then have "pending_sample (handle_key fr ?st')" by (simp add: hk)
    from pending_run [OF this rest] have "capture_transitions (handle_key fr ?st') frs = []"
      by simp
    then show ?thesis using True by (simp add: Let_def)
  next
    case False
    then show ?thesis using Cons.IH [OF rest, of "handle_key fr ?st'"] by (auto simp: Let_def)
  qed
qed

text \<open>The same hold, broken off by a frame without two hands.\<close>

lemma hold_gap_run:
  assumes "\<not> pending_sample st" "two_hands_start_time st = Some t0"
    "\<forall>fr\<in>set frs. frame_features fr \<noteq> None \<and> clock_elapsed fr - t0 < 3"
    "frame_features gap = None"
  shows "capture_transitions st (frs @ [gap]) = [] \<and>
         \<not> pending_sample (run_collect st (frs @ [gap])) \<and>
         captured_features (run_collect st (frs @ [gap])) = captured_features st"
  using assms
proof (induction frs arbitrary: st)
  case Nil
  have a: "auto_capture gap st = st\<lparr>two_hands_start_time := None\<rparr>"
    using Nil.prems(1,4) by (rule auto_capture_gap)
  have np: "\<not> pending_sample (st\<lparr>two_hands_start_time := None\<rparr>)"
    using Nil.prems(1) by simp
  note hk = handle_key_not_pending [OF np, of gap]
  show ?case
    using Nil.prems(1) hk by (simp add: a)
next
  case (Cons fr frs)
  from Cons.prems(3) obtain feats where f: "frame_features fr = Some feats" by auto
  from Cons.prems(3) have lt: "clock_elapsed fr - t0 < 3" by simp
  have a: "auto_capture fr st = st"
    using Cons.prems(1,2) f lt by (rule auto_capture_hold)
  note hk = handle_key_not_pending [OF Cons.prems(1), of fr]
  have ih: "capture_transitions (handle_key fr st) (frs @ [gap]) = [] \<and>
         \<not> pending_sample (run_collect (handle_key fr st) (frs @ [gap])) \<and>
         captured_features (run_collect (handle_key fr st) (frs @ [gap])) =
           captured_features (handle_key fr st)"
    using Cons.IH [OF hk(1)] hk(2) Cons.prems(2,3,4) by simp
  show ?case
    using ih Cons.prems(1) by (simp add: a hk)
qed

text \<open>From the idle state the first frame with two hands starts the timer at its own
  first clock reading.\<close>

lemma start_run:
  assumes "\<not> pending_sample st" "two_hands_start_time st = None" "frame_features fr \<noteq> None"
  shows "capture_transitions st (fr # frs) =
           capture_transitions (st\<lparr>two_hands_start_time := Some (clock_start fr)\<rparr>) (fr # frs)"
    and "run_collect st (fr # frs) =
           run_collect (st\<lparr>two_hands_start_time := Some (clock_start fr)\<rparr>) (fr # frs)"
proof -
  from assms(3) obtain feats where f: "frame_features fr = Some feats" by auto
  note a = auto_capture_start [OF assms(1,2) f]
  show "capture_transitions st (fr # frs) =
           capture_transitions (st\<lparr>two_hands_start_time := Some (clock_start fr)\<rparr>) (fr # frs)"
    by (simp add: a)
  show "run_collect st (fr # frs) =
           run_collect (st\<lparr>two_hands_start_time := Some (clock_start fr)\<rparr>) (fr # frs)"
    by (simp add: a)
qed

lemma idle_short_hold:
  assumes "\<not> pending_sample st" "two_hands_start_time st = None"
    "\<forall>fr\<in>set frs. frame_features fr \<noteq> None \<and> clock_elapsed fr - clock_start (hd frs) < 3"
    "frame_features gap = None"
  shows "capture_transitions st (frs @ [gap]) = [] \<and>
         \<not> pending_sample (run_collect st (frs @ [gap])) \<and>
         captured_features (run_collect st (frs @ [gap])) = captured_features st"
proof (cases frs)
  case Nil
  have a: "auto_capture gap st = st\<lparr>two_hands_start_time := None\<rparr>"
    using assms(1,4) by (rule auto_capture_gap)
  have np: "\<not> pending_sample (st\<lparr>two_hands_start_time := None\<rparr>)"
    using assms(1) by simp
  note hk = handle_key_not_pending [OF np, of gap]
  show ?thesis
    using assms(1) hk by (simp add: Nil a)
next
  case (Cons fr rest)
  let ?st = "st\<lparr>two_hands_start_time := Some (clock_start fr)\<rparr>"
  have present: "frame_features fr \<noteq> None" using assms(3) Cons by simp
  have np: "\<not> pending_sample ?st" using assms(1) by simp
  have t: "two_hands_start_time ?st = Some (clock_start fr)" by simp
  have h: "\<forall>f\<in>set frs. frame_features f \<noteq> None \<and> clock_elapsed f - clock_start fr < 3"
    using assms(3) Cons by simp
  note g = hold_gap_run [OF np t h assms(4)]
  note s = start_run [OF assms(1,2) present, of "rest @ [gap]"]
  show ?thesis
    using g s by (simp add: Cons)
qed

lemma idle_full_hold:
  assumes "\<not> pending_sample st" "two_hands_start_time st = None"
    "\<forall>fr\<in>set frs. frame_features fr \<noteq> None \<and> \<not> is_quit fr \<and> \<not> is_confirm fr"
    "\<exists>fr\<in>set frs. 3 \<le> clock_elapsed fr - clock_start (hd frs)"
  shows "capture_transitions st frs = [frame_features (first_held (clock_start (hd frs)) frs)] \<and>
         pending_sample (run_collect st frs) \<and>
         captured_features (run_collect st frs) =
           frame_features (first_held (clock_start (hd frs)) frs)"
proof (cases frs)
  case Nil
  then show ?thesis using assms(4) by simp
next
  case (Cons fr rest)
  let ?st = "st\<lparr>two_hands_start_time := Some (clock_start fr)\<rparr>"
  have present: "frame_features fr \<noteq> None" using assms(3) Cons by simp
  have np: "\<not> pending_sample ?st" using assms(1) by simp
  have t: "two_hands_start_time ?st = Some (clock_start fr)" by simp
  have ex: "\<exists>f\<in>set frs. 3 \<le> clock_elapsed f - clock_start fr"
    using assms(4) Cons by simp
  note g = fire_run [OF np t assms(3) ex]
  note s = start_run [OF assms(1,2) present, of rest]
  show ?thesis
    using g s by (simp add: Cons)
qed

section \<open>Claims about the auto-capture logic\<close>

text \<open>
  C2.  From the idle state (nothing pending, timer not started): a run of frames with
  two hands whose clock readings all stay less than 3.0 seconds after the first, ended
  by a frame without two hands, has no capture transition and leaves nothing pending.
  A run of frames with two hands, with no quit and no confirmation key, in which some
  reading is at least 3.0 seconds after the first, has exactly one capture transition;
  its snapshot is the feature vector of the first frame that reached 3.0 seconds,
  whatever the later frames hold.  While a sample is pending and no confirmation key
  arrives, further frames, with or without two hands, capture nothing and leave the
  snapshot, the pending flag and the hold timer as they are.  No run without a
  confirmation key has more than one capture transition.
\<close>

theorem auto_capture_debounce:
  "(\<not> pending_sample st \<and> two_hands_start_time st = None \<and>
      (\<forall>fr\<in>set short. frame_features fr \<noteq> None \<and>
                        clock_elapsed fr - clock_start (hd short) < 3) \<and>
      frame_features gap = None \<longrightarrow>
        capture_transitions st (short @ [gap]) = [] \<and>
        \<not> pending_sample (run_collect st (short @ [gap])) \<and>
        captured_features (run_collect st (short @ [gap])) = captured_features st) \<and>
   (\<not> pending_sample st \<and> two_hands_start_time st = None \<and>
      (\<forall>fr\<in>set held. frame_features fr \<noteq> None \<and> \<not> is_quit fr \<and> \<not> is_confirm fr) \<and>
      (\<exists>fr\<in>set held. 3 \<le> clock_elapsed fr - clock_start (hd held)) \<longrightarrow>
        capture_transitions st held =
          [frame_features (first_held (clock_start (hd held)) held)] \<and>
        pending_sample (run_collect st held) \<and>
        captured_features (run_collect st held) =
          frame_features (first_held (clock_start (hd held)) held)) \<and>
   (pending_sample st' \<and> (\<forall>fr\<in>set later. \<not> is_confirm fr) \<longrightarrow>
        capture_transitions st' later = [] \<and>
        pending_sample (run_collect st' later) \<and>
        captured_features (run_collect st' later) = captured_features st' \<and>
        two_hands_start_time (run_collect st' later) = two_hands_start_time st') \<and>
   ((\<forall>fr\<in>set later. \<not> is_confirm fr) \<longrightarrow> length (capture_transitions st'' later) \<le> 1)"
  using idle_short_hold [of st short gap] idle_full_hold [of st held]
    pending_run [of st' later] at_most_one_capture [of later st'']
  by blast

theorem auto_capture_debounce_witness:
  "capture_transitions initial_state (sample_short @ [sample_gap]) = [] \<and>
   \<not> pending_sample (run_collect initial_state (sample_short @ [sample_gap])) \<and>
   capture_transitions initial_state sample_held = [Some [4]] \<and>
   pending_sample (run_collect initial_state sample_held) \<and>
   captured_features (run_collect initial_state sample_held) = Some [4] \<and>
   capture_transitions (run_collect initial_state sample_held) sample_later = [] \<and>
   captured_features (run_collect (run_collect initial_state sample_held) sample_later) = Some [4] \<and>
   length (capture_transitions initial_state sample_later) \<le> 1"
proof -
  note t = auto_capture_debounce [of initial_state sample_short sample_gap sample_held
      "run_collect initial_state sample_held" sample_later initial_state]
  have i: "\<not> pending_sample initial_state" "two_hands_start_time initial_state = None"
    by (simp_all add: initial_state_def)
  have s: "\<forall>fr\<in>set sample_short. frame_features fr \<noteq> None \<and>
             clock_elapsed fr - clock_start (hd sample_short) < 3"
    by (simp add: sample_short_def sample_frame_def)
  have g: "frame_features sample_gap = None"
    by (simp add: sample_gap_def sample_frame_def)
  have h1: "\<forall>fr\<in>set sample_held. frame_features fr \<noteq> None \<and> \<not> is_quit fr \<and> \<not> is_confirm fr"
    by (simp add: sample_held_def sample_frame_def is_quit_def is_confirm_def no_key_def)
  have h2: "\<exists>fr\<in>set sample_held. 3 \<le> clock_elapsed fr - clock_start (hd sample_held)"
    by (simp add: sample_held_def sample_frame_def)
  have fh: "frame_features (first_held (clock_start (hd sample_held)) sample_held) = Some [4]"
    by (simp add: first_held_def sample_held_def sample_frame_def)
  have l: "\<forall>fr\<in>set sample_later. \<not> is_confirm fr"
    by (simp add: sample_later_def sample_frame_def is_confirm_def no_key_def)
  from t i s g have a: "capture_transitions initial_state (sample_short @ [sample_gap]) = [] \<and>
      \<not> pending_sample (run_collect initial_state (sample_short @ [sample_gap]))"
    by blast
  from t i h1 h2 have b: "capture_transitions initial_state sample_held =
          [frame_features (first_held (clock_start (hd sample_held)) sample_held)] \<and>
        pending_sample (run_collect initial_state sample_held) \<and>
        captured_features (run_collect initial_state sample_held) =
          frame_features (first_held (clock_start (hd sample_held)) sample_held)"
    by blast
  from t b l have c: "capture_transitions (run_collect initial_state sample_held) sample_later = [] \<and>
     captured_features (run_collect (run_collect initial_state sample_held) sample_later) =
       captured_features (run_collect initial_state sample_held)"
    by blast
  from t l have d: "length (capture_transitions initial_state sample_later) \<le> 1"
    by blast
  from a b c d show ?thesis by (simp add: fh)
qed

lemma deque_append_length:
  assumes "length d \<le> m"
  shows "length (deque_append m d x) \<le> m"
  using assms by (simp add: deque_append_def Let_def)

lemma detect_step_length:
  assumes "length buf \<le> 10"
  shows "length (fst (detect_step predict buf f)) \<le> 10"
  using assms deque_append_length [of buf 10]
  by (cases f) (simp_all add: detect_step_def SMOOTHING_WINDOW_def Let_def)

lemma run_detect_length:
  assumes "length buf \<le> 10"
  shows "length (run_detect predict buf frames) \<le> 10"
  using assms
proof (induction frames arbitrary: buf)
  case Nil
  then show ?case by simp
next
  case (Cons f frames)
  show ?case
    using Cons.IH [OF detect_step_length [OF Cons.prems]] by simp
qed

lemma detect_step_present:
  "fst (detect_step predict buf (Some feats)) = deque_append 10 buf (predict feats)"
  by (simp add: detect_step_def SMOOTHING_WINDOW_def Let_def)

section \<open>Claims about the smoothing buffer\<close>

text \<open>
  C7.  The prediction buffer holds at most 10 entries after any run of frames from the
  empty buffer (and from any buffer of at most 10 entries).  A frame with two hands
  appends its probability: to a buffer of fewer than 10 entries it is simply added at
  the end, and from a buffer of 10 entries the oldest entry, and only that one, is
  dropped.
\<close>

theorem prediction_window_bounded:
  "length (run_detect predict [] frames) \<le> 10 \<and>
   (length buf \<le> 10 \<longrightarrow> length (run_detect predict buf frames) \<le> 10) \<and>
   (length buf < 10 \<longrightarrow>
      fst (detect_step predict buf (Some feats)) = buf @ [predict feats]) \<and>
   (length buf = 10 \<longrightarrow>
      fst (detect_step predict buf (Some feats)) = tl buf @ [predict feats])"
proof -
  have "length (run_detect predict [] frames) \<le> 10"
    by (rule run_detect_length) simp
  moreover have "fst (detect_step predict buf (Some feats)) = buf @ [predict feats]"
    if "length buf < 10"
    using that by (simp add: detect_step_present deque_append_def)
  moreover have "fst (detect_step predict buf (Some feats)) = tl buf @ [predict feats]"
    if "length buf = 10"
  proof -
    from that have "buf \<noteq> []" by auto
    then show ?thesis
      using that by (simp add: detect_step_present deque_append_def)
  qed
  ultimately show ?thesis
    using run_detect_length [of buf predict frames] by blast
qed

theorem prediction_window_bounded_witness:
  "length sample_window = 10 \<and>
   fst (detect_step (\<lambda>_. 1) sample_window (Some [])) =
     [1 / 10, 2 / 10, 3 / 10, 4 / 10, 5 / 10, 6 / 10, 7 / 10, 8 / 10, 9 / 10, 1] \<and>
   length (run_detect (\<lambda>_. 1) sample_window [Some [], Some []]) \<le> 10 \<and>
   length (take 9 sample_window) < 10 \<and>
   fst (detect_step (\<lambda>_. 1) (take 9 sample_window) (Some [])) =
     [0, 1 / 10, 2 / 10, 3 / 10, 4 / 10, 5 / 10, 6 / 10, 7 / 10, 8 / 10, 1]"
proof -
  note t1 = prediction_window_bounded [of "\<lambda>_. 1" "[Some [], Some []]" sample_window "[]"]
  note t2 = prediction_window_bounded [of "\<lambda>_. 1" "[]" "take 9 sample_window" "[]"]
  have l10: "length sample_window = 10"
    by (simp add: sample_window_def)
  then have le: "length sample_window \<le> 10" by simp
  have l9: "length (take 9 sample_window) < 10" by simp
  from t1 l10 have "fst (detect_step (\<lambda>_. 1) sample_window (Some [])) = tl sample_window @ [1]"
    by blast
  then have a: "fst (detect_step (\<lambda>_. 1) sample_window (Some [])) =
     [1 / 10, 2 / 10, 3 / 10, 4 / 10, 5 / 10, 6 / 10, 7 / 10, 8 / 10, 9 / 10, 1]"
    by (simp add: sample_window_def)
  from t1 le have b: "length (run_detect (\<lambda>_. 1) sample_window [Some [], Some []]) \<le> 10"
    by blast
  from t2 l9 have "fst (detect_step (\<lambda>_. 1) (take 9 sample_window) (Some [])) =
      take 9 sample_window @ [1]"
    by blast
  then have c: "fst (detect_step (\<lambda>_. 1) (take 9 sample_window) (Some [])) =
     [0, 1 / 10, 2 / 10, 3 / 10, 4 / 10, 5 / 10, 6 / 10, 7 / 10, 8 / 10, 1]"
    by (simp add: sample_window_def)
  from l10 a b l9 c show ?thesis by blast
qed

text \<open>
  C8.  A frame without two hands empties the prediction buffer in that step and shows
  NO HEART with no probability; the buffer and everything shown after the gap are those
  of a run started from the empty buffer, whatever the buffer held before.
\<close>

theorem gap_clears_window:
  "fst (detect_step predict buf None) = [] \<and>
   display_text (snd (detect_step predict buf None)) = ''NO HEART'' \<and>
   avg_probability (snd (detect_step predict buf None)) = None \<and>
   run_detect predict buf (None # frames) = run_detect predict [] frames \<and>
   detect_outputs predict buf (None # frames) =
     \<lparr>display_text = ''NO HEART'', avg_probability = None\<rparr> # detect_outputs predict [] frames"
  by (simp add: detect_step_def)

section \<open>Properties of binary64 rounding and of the mean\<close>

lemma ulp_index_eq:
  assumes "x * 2 ^ 1074 < 2 ^ (K + 53)"
    and "K = 0 \<or> 2 ^ (K + 52) \<le> x * 2 ^ 1074"
    and "k \<le> K" and "K - k \<le> fuel"
  shows "ulp_index fuel k x = K"
  using assms(3,4)
proof (induction fuel arbitrary: k)
  case 0
  then show ?case by simp
next
  case (Suc fuel)
  show ?case
  proof (cases "k = K")
    case True
    then show ?thesis using assms(1) by simp
  next
    case False
    with Suc.prems have lt: "k < K" by simp
    then have "K \<noteq> 0" by simp
    with assms(2) have ge: "2 ^ (K + 52) \<le> x * 2 ^ 1074" by simp
    have "(2::real) ^ (k + 53) \<le> 2 ^ (K + 52)"
      using lt by (intro power_increasing) simp_all
    then have "2 ^ (k + 53) \<le> x * 2 ^ 1074"
      using ge by (rule order_trans)
    then have "\<not> x * 2 ^ 1074 < 2 ^ (k + 53)"
      by (simp add: not_less)
    moreover have "ulp_index fuel (Suc k) x = K"
      using lt Suc.prems by (intro Suc.IH) simp_all
    ultimately show ?thesis by simp
  qed
qed

lemma ulp64_ge1:
  assumes "2 ^ j \<le> \<bar>x\<bar>" "\<bar>x\<bar> < 2 * 2 ^ j" "j \<le> 1023"
  shows "ulp64 x = 2 ^ j / 2 ^ 52"
proof -
  have a: "\<bar>x\<bar> * 2 ^ 1074 < 2 ^ ((j + 1022) + 53)"
  proof -
    have "\<bar>x\<bar> * 2 ^ 1074 < (2 * 2 ^ j) * 2 ^ 1074"
      using assms(2) by simp
    also have "\<dots> = 2 ^ ((j + 1022) + 53)"
      by (simp add: power_add)
    finally show ?thesis .
  qed
  have b: "2 ^ ((j + 1022) + 52) \<le> \<bar>x\<bar> * 2 ^ 1074"
  proof -
    have "(2::real) ^ ((j + 1022) + 52) = 2 ^ j * 2 ^ 1074"
      by (simp add: power_add)
    also have "\<dots> \<le> \<bar>x\<bar> * 2 ^ 1074"
      using assms(1) by simp
    finally show ?thesis .
  qed
  have "ulp_index 2045 0 \<bar>x\<bar> = j + 1022"
    using a b assms(3) by (intro ulp_index_eq) simp_all
  then have "ulp64 x = 2 ^ (j + 1022) / 2 ^ 1074"
    by (simp add: ulp64_def)
  also have "\<dots> = 2 ^ j / 2 ^ 52"
    by (simp add: power_add)
  finally show ?thesis .
qed

lemma ulp64_lt1:
  assumes "1 \<le> \<bar>x\<bar> * 2 ^ j" "\<bar>x\<bar> * 2 ^ j < 2" "j \<le> 1022"
  shows "ulp64 x = 1 / (2 ^ j * 2 ^ 52)"
proof -
  define m :: nat where "m = 1074"
  have jm: "j + 52 \<le> m" using assms(3) by (simp add: m_def)
  have split: "(2::real) ^ m = 2 ^ j * 2 ^ (m - j)"
    using jm by (simp add: power_add [symmetric])
  have a: "\<bar>x\<bar> * 2 ^ m < 2 ^ ((1022 - j) + 53)"
  proof -
    have "\<bar>x\<bar> * 2 ^ m = (\<bar>x\<bar> * 2 ^ j) * 2 ^ (m - j)"
      by (simp add: split)
    also have "\<dots> < 2 * 2 ^ (m - j)"
      using assms(2) by simp
    also have "\<dots> = 2 ^ Suc (m - j)"
      by simp
    also have "Suc (m - j) = (1022 - j) + 53"
      using assms(3) by (simp add: m_def)
    finally show ?thesis .
  qed
  have b: "2 ^ ((1022 - j) + 52) \<le> \<bar>x\<bar> * 2 ^ m"
  proof -
    have "(1022 - j) + 52 = m - j"
      using assms(3) by (simp add: m_def)
    then have "(2::real) ^ ((1022 - j) + 52) = 1 * 2 ^ (m - j)"
      by simp
    also have "\<dots> \<le> (\<bar>x\<bar> * 2 ^ j) * 2 ^ (m - j)"
      using assms(1) by (intro mult_right_mono) simp_all
    also have "\<dots> = \<bar>x\<bar> * 2 ^ m"
      by (simp add: split)
    finally show ?thesis .
  qed
  have "ulp_index 2045 0 \<bar>x\<bar> = 1022 - j"
    using a [unfolded m_def] b [unfolded m_def] by (intro ulp_index_eq) simp_all
  then have "ulp64 x = 2 ^ (1022 - j) / 2 ^ m"
    by (simp add: ulp64_def m_def)
  also have "(2::real) ^ m = 2 ^ (1022 - j) * (2 ^ j * 2 ^ 52)"
    using assms(3) by (simp add: power_add [symmetric] m_def)
  finally show ?thesis by simp
qed

lemma round64_ge1:
  assumes "2 ^ j \<le> \<bar>x\<bar>" "\<bar>x\<bar> < 2 * 2 ^ j" "j \<le> 1023"
  shows "round64 x = of_int (round_half_even (x * 2 ^ 52 / 2 ^ j)) * 2 ^ j / 2 ^ 52"
  by (simp add: round64_def ulp64_ge1 [OF assms])

lemma round64_lt1:
  assumes "1 \<le> \<bar>x\<bar> * 2 ^ j" "\<bar>x\<bar> * 2 ^ j < 2" "j \<le> 1022"
  shows "round64 x = of_int (round_half_even (x * (2 ^ j * 2 ^ 52))) / (2 ^ j * 2 ^ 52)"
  by (simp add: round64_def ulp64_lt1 [OF assms])

lemma p08: "round64 (80 / 100) = 3602879701896397 / 4503599627370496"
  by (simp add: round64_lt1 [where j = 1] round_half_even_def)

lemma p09: "round64 (9 / 10) = 8106479329266893 / 9007199254740992"
  by (simp add: round64_lt1 [where j = 1] round_half_even_def)

lemma p05: "round64 (5 / 10) = 1 / 2"
  by (simp add: round64_lt1 [where j = 1] round_half_even_def)

lemmas round64_eval =
  round64_lt1 [where j = 1] round64_ge1 [where j = 0] round64_ge1 [where j = 1]
  round64_ge1 [where j = 2] round64_ge1 [where j = 3]

lemma np_mean_six:
  "np_mean (replicate 6 (3602879701896397 / 4503599627370496)) =
     7205759403792793 / 9007199254740992"
  by (simp add: np_mean_def pairwise_sum.simps eval_nat_numeral fl_add_def fl_div_def
      round64_eval round_half_even_def)

lemma np_mean_two:
  "np_mean [3602879701896397 / 4503599627370496, 3602879701896397 / 4503599627370496] =
     3602879701896397 / 4503599627370496"
  by (simp add: np_mean_def pairwise_sum.simps fl_add_def fl_div_def
      round64_eval round_half_even_def)

lemma replicate_ten: "replicate 10 x = [x, x, x, x, x, x, x, x, x, x]"
  by (simp add: eval_nat_numeral)

lemma add_blocks_short:
  assumes "length a < 8"
  shows "add_blocks r a = r"
  using assms by (subst add_blocks.simps) simp

lemma pairwise_sum_ten:
  "pairwise_sum [a0, a1, a2, a3, a4, a5, a6, a7, a8, a9] =
     fl_add (fl_add (fl_add (fl_add (fl_add a0 a1) (fl_add a2 a3))
                            (fl_add (fl_add a4 a5) (fl_add a6 a7))) a8) a9"
  by (subst pairwise_sum.simps) (simp add: add_blocks_short)

lemma np_mean_ten_high:
  "np_mean (replicate 10 (8106479329266893 / 9007199254740992)) =
     8106479329266893 / 9007199254740992"
  by (simp add: replicate_ten np_mean_def pairwise_sum_ten fl_add_def fl_div_def
      round64_eval round_half_even_def)

lemma np_mean_ten_low: "np_mean (replicate 10 (1 / 2)) = 1 / 2"
  by (simp add: replicate_ten np_mean_def pairwise_sum_ten fl_add_def fl_div_def
      round64_eval round_half_even_def)

lemma detect_step_decision:
  "snd (detect_step predict buf (Some feats)) =
     \<lparr>display_text =
        (if HEART_THRESHOLD \<le> np_mean (deque_append 10 buf (predict feats))
         then ''HEART <3'' else ''NO HEART''),
      avg_probability = Some (np_mean (deque_append 10 buf (predict feats)))\<rparr>"
  by (simp add: detect_step_def SMOOTHING_WINDOW_def Let_def)

lemma window_of_ten:
  "deque_append 10 (replicate 9 x) (hd [x]) = replicate 10 x"
  by (simp add: deque_append_def eval_nat_numeral)

section \<open>Claims about the decision\<close>

text \<open>
  C9 as stated fails: six probabilities \<open>0.8\<close> have the mean \<open>0.80\<close> exactly, the
  threshold itself, but their binary64 sum is the float below \<open>6 * 0.8\<close> and the
  computed mean is the float next below \<open>0.80\<close>, so the frame shows NO HEART.
\<close>

theorem exact_mean_counterexample:
  "sum_list (replicate 6 (round64 (80 / 100))) / 6 = round64 (80 / 100) \<and>
   fst (detect_step hd (replicate 5 (round64 (80 / 100))) (Some [round64 (80 / 100)])) =
     replicate 6 (round64 (80 / 100)) \<and>
   np_mean (replicate 6 (round64 (80 / 100))) = 7205759403792793 / 9007199254740992 \<and>
   HEART_THRESHOLD = 7205759403792794 / 9007199254740992 \<and>
   display_text (snd (detect_step hd (replicate 5 (round64 (80 / 100)))
      (Some [round64 (80 / 100)]))) = ''NO HEART''"
proof -
  let ?p = "3602879701896397 / 4503599627370496 :: real"
  have w: "deque_append 10 (replicate 5 ?p) (hd [?p]) = replicate 6 ?p"
    by (simp add: deque_append_def eval_nat_numeral)
  have e: "sum_list (replicate 6 ?p) / 6 = ?p"
    by (simp add: sum_list_replicate)
  have t: "HEART_THRESHOLD = 7205759403792794 / 9007199254740992"
    by (simp only: HEART_THRESHOLD_def p08)
  have d: "display_text (snd (detect_step hd (replicate 5 ?p) (Some [?p]))) = ''NO HEART''"
    by (simp only: detect_step_decision w np_mean_six t) simp
  have f: "fst (detect_step hd (replicate 5 ?p) (Some [?p])) = replicate 6 ?p"
    by (simp only: detect_step_present w)
  from e f d t show ?thesis
    by (simp only: p08 np_mean_six)
qed

text \<open>
  C9, amended.  With two hands the frame shows HEART exactly when the mean of the
  buffer as \<open>np.mean\<close> computes it in binary64, the new probability included, is at
  least \<open>0.80\<close>; the threshold is inclusive, so a computed mean of exactly \<open>0.80\<close>
  shows HEART.  A window of ten probabilities \<open>0.9\<close> shows HEART and a window of ten
  probabilities \<open>0.5\<close> shows NO HEART.
\<close>

theorem threshold_on_computed_mean:
  "display_text (snd (detect_step predict buf (Some feats))) =
     (if HEART_THRESHOLD \<le> np_mean (fst (detect_step predict buf (Some feats)))
      then ''HEART <3'' else ''NO HEART'') \<and>
   avg_probability (snd (detect_step predict buf (Some feats))) =
     Some (np_mean (fst (detect_step predict buf (Some feats)))) \<and>
   HEART_THRESHOLD = round64 (80 / 100) \<and>
   (np_mean (fst (detect_step predict buf (Some feats))) = round64 (80 / 100) \<longrightarrow>
      display_text (snd (detect_step predict buf (Some feats))) = ''HEART <3'') \<and>
   fst (detect_step hd (replicate 9 (round64 (9 / 10))) (Some [round64 (9 / 10)])) =
     replicate 10 (round64 (9 / 10)) \<and>
   display_text (snd (detect_step hd (replicate 9 (round64 (9 / 10)))
      (Some [round64 (9 / 10)]))) = ''HEART <3'' \<and>
   fst (detect_step hd (replicate 9 (round64 (5 / 10))) (Some [round64 (5 / 10)])) =
     replicate 10 (round64 (5 / 10)) \<and>
   display_text (snd (detect_step hd (replicate 9 (round64 (5 / 10)))
      (Some [round64 (5 / 10)]))) = ''NO HEART''"
proof -
  have step: "display_text (snd (detect_step predict buf (Some feats))) =
     (if HEART_THRESHOLD \<le> np_mean (fst (detect_step predict buf (Some feats)))
      then ''HEART <3'' else ''NO HEART'') \<and>
   avg_probability (snd (detect_step predict buf (Some feats))) =
     Some (np_mean (fst (detect_step predict buf (Some feats))))"
    by (simp add: detect_step_decision detect_step_present)
  have thr: "HEART_THRESHOLD = round64 (80 / 100)"
    by (simp add: HEART_THRESHOLD_def)
  have incl: "display_text (snd (detect_step predict buf (Some feats))) = ''HEART <3''"
    if "np_mean (fst (detect_step predict buf (Some feats))) = round64 (80 / 100)"
    using step that by (simp add: thr)
  have t: "HEART_THRESHOLD = 7205759403792794 / 9007199254740992"
    by (simp only: HEART_THRESHOLD_def p08)
  have high: "fst (detect_step hd (replicate 9 (round64 (9 / 10))) (Some [round64 (9 / 10)])) =
     replicate 10 (round64 (9 / 10)) \<and>
   display_text (snd (detect_step hd (replicate 9 (round64 (9 / 10)))
      (Some [round64 (9 / 10)]))) = ''HEART <3''"
    by (simp only: detect_step_decision detect_step_present window_of_ten p09
        np_mean_ten_high t) simp
  have low: "fst (detect_step hd (replicate 9 (round64 (5 / 10))) (Some [round64 (5 / 10)])) =
     replicate 10 (round64 (5 / 10)) \<and>
   display_text (snd (detect_step hd (replicate 9 (round64 (5 / 10)))
      (Some [round64 (5 / 10)]))) = ''NO HEART''"
    by (simp only: detect_step_decision detect_step_present window_of_ten p05
        np_mean_ten_low t) simp
  from step thr incl high low show ?thesis by blast
qed

theorem threshold_on_computed_mean_witness:
  "fst (detect_step hd [round64 (80 / 100)] (Some [round64 (80 / 100)])) =
     [round64 (80 / 100), round64 (80 / 100)] \<and>
   np_mean (fst (detect_step hd [round64 (80 / 100)] (Some [round64 (80 / 100)]))) =
     round64 (80 / 100) \<and>
   display_text (snd (detect_step hd [round64 (80 / 100)] (Some [round64 (80 / 100)]))) =
     ''HEART <3''"
proof -
  have w: "fst (detect_step hd [round64 (80 / 100)] (Some [round64 (80 / 100)])) =
     [round64 (80 / 100), round64 (80 / 100)]"
    by (simp add: detect_step_present deque_append_def)
  have m: "np_mean (fst (detect_step hd [round64 (80 / 100)] (Some [round64 (80 / 100)]))) =
     round64 (80 / 100)"
    by (simp only: w) (simp only: p08 np_mean_two)
  from threshold_on_computed_mean [of hd "[round64 (80 / 100)]" "[round64 (80 / 100)]"] m w
  show ?thesis by blast
qed

end
